theory Spec2Isabelle
  imports Complex_Main "HOL-Library.Word"
begin

section \<open>Python values and exceptions\<close>

text \<open>
  An exception is kept as its class name and the text \<open>str(e)\<close> returns. Every
  call that may raise returns a sum: \<open>Inl\<close> the exception, \<open>Inr\<close> the value.
  Only exceptions deriving from \<open>Exception\<close> are modelled: they are what the two
  \<open>except Exception\<close> clauses of the script catch.
\<close>

datatype pyexc = PyExc (exc_class: string) (exc_str: string)

type_synonym 'a raises = "pyexc + 'a"

type_synonym byte = "8 word"

text \<open>
  A Python number of the bounding box: the literal \<open>0\<close> is an \<open>int\<close>, the result of
  \<open>float(...)\<close> is a \<open>float\<close>. The script performs no floating-point arithmetic,
  it only passes the library's coordinates on, so the carrier of floats is \<open>real\<close>.
\<close>

datatype pynum = PyInt int | PyFloat real

fun is_float :: "pynum \<Rightarrow> bool" where
  "is_float (PyFloat v) = True"
| "is_float (PyInt n) = False"

section \<open>The PDF library as the script sees it\<close>

text \<open>
  The script reads \<open>rect.x0\<close>, \<open>rect.y0\<close>, \<open>rect.width\<close> and \<open>rect.height\<close> of a
  placement rectangle, \<open>base_image["image"]\<close> and \<open>base_image["ext"]\<close> of a
  decoded image, and \<open>img[0]\<close> of an entry of \<open>page.get_images(full=True)\<close>.
\<close>

datatype rect = Rect (rect_x0: real) (rect_y0: real) (rect_width: real) (rect_height: real)

datatype base_image = BaseImage (base_image_image: "byte list") (base_image_ext: string)

datatype img = Img (img_0: nat) (img_name: string)

record page =
  get_images :: "img list raises"
  get_image_rects :: "nat \<Rightarrow> rect list raises"

record document =
  doc_len :: nat
  doc_getitem :: "nat \<Rightarrow> page raises"
  extract_image :: "nat \<Rightarrow> base_image raises"
  doc_close :: "unit raises"

text \<open>\<open>fitz.open\<close>: the file system and the parser, from a path to a document.\<close>

type_synonym fitz = "string \<Rightarrow> document raises"

text \<open>The calls that take and release the document handle, in the order made.\<close>

datatype lib_call = FitzOpen string | DocClose string

section \<open>base64.b64encode\<close>

text \<open>
  Modelled from the spec: \<open>base64.b64encode\<close> and \<open>base64.b64decode\<close> belong to
  the Python standard library and are not part of the source. The spec asks for
  the standard (not URL-safe) alphabet and no line wrapping, which is the encoding
  of RFC 4648, section 4: three bytes become four characters of the alphabet, and
  a last group of one or two bytes is padded with \<open>=\<close>.
\<close>

definition b64_alphabet :: string where
  "b64_alphabet = ''ABCDEFGHIJKLMNOPQRSTUVWXYZabcdefghijklmnopqrstuvwxyz0123456789+/''"

text \<open>
  Modelled from the spec: the character of a six-bit value, which the standard
  library looks up in the alphabet above and the source does not contain.
\<close>

definition b64_char :: "nat \<Rightarrow> char" where
  "b64_char n = b64_alphabet ! (n mod 64)"

text \<open>
  Modelled from the spec: \<open>base64.b64encode\<close>, absent from the source. Each group
  of three bytes is one 24-bit number, written as four six-bit characters; the
  output has no line breaks.
\<close>

fun b64encode :: "byte list \<Rightarrow> string" where
  "b64encode [] = []"
| "b64encode [a] =
     (let n = unat a * 65536
      in [b64_char (n div 262144), b64_char (n div 4096), CHR ''='', CHR ''=''])"
| "b64encode [a, b] =
     (let n = unat a * 65536 + unat b * 256
      in [b64_char (n div 262144), b64_char (n div 4096), b64_char (n div 64), CHR ''=''])"
| "b64encode (a # b # c # rest) =
     (let n = unat a * 65536 + unat b * 256 + unat c
      in [b64_char (n div 262144), b64_char (n div 4096), b64_char (n div 64), b64_char n]
         @ b64encode rest)"

text \<open>
  Modelled from the spec: \<open>base64.b64decode\<close>, absent from the source, for text
  made of whole groups of four characters, the last of which may end in one or two
  padding characters. A character outside the alphabet has no value.
\<close>

fun index_of :: "char \<Rightarrow> string \<Rightarrow> nat \<Rightarrow> nat option" where
  "index_of c [] i = None"
| "index_of c (d # ds) i = (if c = d then Some i else index_of c ds (Suc i))"

definition b64_value :: "char \<Rightarrow> nat option" where
  "b64_value c = index_of c b64_alphabet 0"

definition b64_group :: "char \<Rightarrow> char \<Rightarrow> char \<Rightarrow> char \<Rightarrow> nat option" where
  "b64_group c0 c1 c2 c3 =
     (case (b64_value c0, b64_value c1, b64_value c2, b64_value c3) of
        (Some v0, Some v1, Some v2, Some v3) \<Rightarrow> Some (((v0 * 64 + v1) * 64 + v2) * 64 + v3)
      | _ \<Rightarrow> None)"

fun b64decode :: "string \<Rightarrow> byte list option" where
  "b64decode [] = Some []"
| "b64decode (c0 # c1 # c2 # c3 # rest) =
     (if rest = [] \<and> c2 = CHR ''='' \<and> c3 = CHR ''='' then
        (case b64_group c0 c1 (CHR ''A'') (CHR ''A'') of
           None \<Rightarrow> None
         | Some n \<Rightarrow> Some [of_nat (n div 65536)])
      else if rest = [] \<and> c3 = CHR ''='' then
        (case b64_group c0 c1 c2 (CHR ''A'') of
           None \<Rightarrow> None
         | Some n \<Rightarrow> Some [of_nat (n div 65536), of_nat (n div 256)])
      else
        (case b64_group c0 c1 c2 c3 of
           None \<Rightarrow> None
         | Some n \<Rightarrow>
             (case b64decode rest of
                None \<Rightarrow> None
              | Some bs \<Rightarrow> Some (of_nat (n div 65536) # of_nat (n div 256) # of_nat n # bs))))"
| "b64decode cs = None"

section \<open>The extraction routine\<close>

datatype bbox = BBox (bbox_x: pynum) (bbox_y: pynum) (bbox_width: pynum) (bbox_height: pynum)

record image_record =
  pageNumber :: int
  imageIndex :: int
  format :: string
  base64 :: string
  bbox :: bbox

text \<open>
  The inner loop, \<open>for image_index, img in enumerate(image_list)\<close>: the list still
  to visit, the index of its head, and \<open>extracted_images\<close> as built so far. An
  exception leaves the loop at once, and the list built so far is dropped with it.
\<close>

fun image_loop ::
  "document \<Rightarrow> page \<Rightarrow> nat \<Rightarrow> nat \<Rightarrow> img list \<Rightarrow> image_record list \<Rightarrow> image_record list raises"
where
  "image_loop doc page page_num image_index [] extracted_images = Inr extracted_images"
| "image_loop doc page page_num image_index (img # image_list) extracted_images =
     (let xref = img_0 img in
      case extract_image doc xref of
        Inl e \<Rightarrow> Inl e
      | Inr base_image \<Rightarrow>
          (let image_bytes = base_image_image base_image;
               image_ext = base_image_ext base_image
           in case get_image_rects page xref of
                Inl e \<Rightarrow> Inl e
              | Inr rects \<Rightarrow>
                  (let bbox =
                         (case rects of
                            rect # _ \<Rightarrow>
                              BBox (PyFloat (rect_x0 rect)) (PyFloat (rect_y0 rect))
                                   (PyFloat (rect_width rect)) (PyFloat (rect_height rect))
                          | [] \<Rightarrow> BBox (PyInt 0) (PyInt 0) (PyInt 0) (PyInt 0));
                       image_base64 = b64encode image_bytes
                   in image_loop doc page page_num (image_index + 1) image_list
                        (extracted_images @
                           [\<lparr>pageNumber = int page_num + 1,
                             imageIndex = int image_index,
                             format = image_ext,
                             base64 = image_base64,
                             bbox = bbox\<rparr>]))))"

text \<open>The outer loop, \<open>for page_num in range(len(doc))\<close>, over the indices left.\<close>

fun page_loop :: "document \<Rightarrow> nat list \<Rightarrow> image_record list \<Rightarrow> image_record list raises" where
  "page_loop doc [] extracted_images = Inr extracted_images"
| "page_loop doc (page_num # page_nums) extracted_images =
     (case doc_getitem doc page_num of
        Inl e \<Rightarrow> Inl e
      | Inr page \<Rightarrow>
          (case get_images page of
             Inl e \<Rightarrow> Inl e
           | Inr image_list \<Rightarrow>
               (case image_loop doc page page_num 0 image_list extracted_images of
                  Inl e \<Rightarrow> Inl e
                | Inr extracted_images' \<Rightarrow> page_loop doc page_nums extracted_images')))"

text \<open>
  The body of the \<open>try\<close> block: the value returned or the exception raised, and
  the handle calls made on the way. \<open>doc.close()\<close> is the statement after the
  loops, so it is reached only when both loops have run to their end.
\<close>

definition try_body :: "fitz \<Rightarrow> string \<Rightarrow> image_record list raises \<times> lib_call list" where
  "try_body fitz_open pdf_path =
     (case fitz_open pdf_path of
        Inl e \<Rightarrow> (Inl e, [FitzOpen pdf_path])
      | Inr doc \<Rightarrow>
          (case page_loop doc [0..<doc_len doc] [] of
             Inl e \<Rightarrow> (Inl e, [FitzOpen pdf_path])
           | Inr extracted_images \<Rightarrow>
               (case doc_close doc of
                  Inl e \<Rightarrow> (Inl e, [FitzOpen pdf_path, DocClose pdf_path])
                | Inr u \<Rightarrow> (Inr extracted_images, [FitzOpen pdf_path, DocClose pdf_path]))))"

text \<open>\<open>except Exception as e: raise Exception(f"Failed to extract images: {str(e)}")\<close>\<close>

definition extract_images_from_pdf :: "fitz \<Rightarrow> string \<Rightarrow> image_record list raises \<times> lib_call list" where
  "extract_images_from_pdf fitz_open pdf_path =
     (case try_body fitz_open pdf_path of
        (Inl e, calls) \<Rightarrow>
          (Inl (PyExc ''Exception'' (''Failed to extract images: '' @ exc_str e)), calls)
      | (Inr extracted_images, calls) \<Rightarrow> (Inr extracted_images, calls))"

section \<open>The entry point\<close>

datatype json =
    JBool bool
  | JInt int
  | JFloat real
  | JStr string
  | JArr "json list"
  | JObj "(string \<times> json) list"

text \<open>What \<open>json.dumps\<close> makes of the dictionaries the script builds, key by key.\<close>

fun dumps_num :: "pynum \<Rightarrow> json" where
  "dumps_num (PyInt n) = JInt n"
| "dumps_num (PyFloat v) = JFloat v"

definition dumps_bbox :: "bbox \<Rightarrow> json" where
  "dumps_bbox b =
     JObj [(''x'', dumps_num (bbox_x b)), (''y'', dumps_num (bbox_y b)),
           (''width'', dumps_num (bbox_width b)), (''height'', dumps_num (bbox_height b))]"

definition dumps_record :: "image_record \<Rightarrow> json" where
  "dumps_record r =
     JObj [(''pageNumber'', JInt (pageNumber r)), (''imageIndex'', JInt (imageIndex r)),
           (''format'', JStr (format r)), (''base64'', JStr (base64 r)),
           (''bbox'', dumps_bbox (bbox r))]"

text \<open>A line printed to a stream: plain text, or a serialised JSON document.\<close>

datatype line = Text string | Json json

fun is_json :: "line \<Rightarrow> bool" where
  "is_json (Json j) = True"
| "is_json (Text t) = False"

record process =
  stdout :: "line list"
  stderr :: "line list"
  exit_code :: int
  lib_calls :: "lib_call list"

text \<open>
  \<open>main\<close> on \<open>sys.argv\<close>. \<open>sys.exit\<close> raises \<open>SystemExit\<close>, which is not an
  \<open>Exception\<close>, so the \<open>sys.exit(0)\<close> inside the \<open>try\<close> block ends the process.
\<close>

definition main :: "fitz \<Rightarrow> string list \<Rightarrow> process" where
  "main fitz_open argv =
     (if length argv \<noteq> 2 then
        \<lparr>stdout = [],
         stderr = [Text ''Usage: python extract_images.py <pdf_path>''],
         exit_code = 1,
         lib_calls = []\<rparr>
      else
        (let pdf_path = argv ! 1 in
         case extract_images_from_pdf fitz_open pdf_path of
           (Inr images, calls) \<Rightarrow>
             \<lparr>stdout = [Json (JObj [(''success'', JBool True),
                                    (''totalImages'', JInt (int (length images))),
                                    (''images'', JArr (map dumps_record images))])],
              stderr = [],
              exit_code = 0,
              lib_calls = calls\<rparr>
         | (Inl e, calls) \<Rightarrow>
             \<lparr>stdout = [],
              stderr = [Json (JObj [(''success'', JBool False), (''error'', JStr (exc_str e))])],
              exit_code = 1,
              lib_calls = calls\<rparr>))"

section \<open>The library's failures, listed\<close>

text \<open>
  The exceptions of the library calls the routine makes on a document when nothing
  stops it, in the order of the calls: the open; for each page its load and its
  image enumeration; for each enumerated image its decode and its geometry lookup;
  the close. This list is written from the description of the algorithm, with no
  loop state, to be compared with what the loops of the routine do.
\<close>

definition raised :: "'a raises \<Rightarrow> pyexc list" where
  "raised r = (case r of Inl e \<Rightarrow> [e] | Inr v \<Rightarrow> [])"

definition image_errors :: "document \<Rightarrow> page \<Rightarrow> img \<Rightarrow> pyexc list" where
  "image_errors doc page img =
     raised (extract_image doc (img_0 img)) @ raised (get_image_rects page (img_0 img))"

definition page_errors :: "document \<Rightarrow> nat \<Rightarrow> pyexc list" where
  "page_errors doc page_num =
     (case doc_getitem doc page_num of
        Inl e \<Rightarrow> [e]
      | Inr page \<Rightarrow>
          (case get_images page of
             Inl e \<Rightarrow> [e]
           | Inr image_list \<Rightarrow> concat (map (image_errors doc page) image_list)))"

definition library_errors :: "fitz \<Rightarrow> string \<Rightarrow> pyexc list" where
  "library_errors fitz_open pdf_path =
     (case fitz_open pdf_path of
        Inl e \<Rightarrow> [e]
      | Inr doc \<Rightarrow> concat (map (page_errors doc) [0..<doc_len doc]) @ raised (doc_close doc))"

section \<open>The records of one page, as a relation\<close>

text \<open>
  \<open>image_rel\<close> holds between the entry \<open>(image_index, img)\<close> of a page's enumeration
  and the record appended for it; \<open>page_rel\<close> between a page index and the records
  appended while that page was visited.
\<close>

definition image_rel :: "document \<Rightarrow> page \<Rightarrow> nat \<Rightarrow> nat \<times> img \<Rightarrow> image_record \<Rightarrow> bool" where
  "image_rel doc page page_num entry r =
     (case extract_image doc (img_0 (snd entry)) of
        Inl e \<Rightarrow> False
      | Inr base_image \<Rightarrow>
          (case get_image_rects page (img_0 (snd entry)) of
             Inl e \<Rightarrow> False
           | Inr rects \<Rightarrow>
               r = \<lparr>pageNumber = int page_num + 1,
                    imageIndex = int (fst entry),
                    format = base_image_ext base_image,
                    base64 = b64encode (base_image_image base_image),
                    bbox = (case rects of
                              rect # _ \<Rightarrow>
                                BBox (PyFloat (rect_x0 rect)) (PyFloat (rect_y0 rect))
                                     (PyFloat (rect_width rect)) (PyFloat (rect_height rect))
                            | [] \<Rightarrow> BBox (PyInt 0) (PyInt 0) (PyInt 0) (PyInt 0))\<rparr>))"

definition page_rel :: "document \<Rightarrow> nat \<Rightarrow> image_record list \<Rightarrow> bool" where
  "page_rel doc page_num block =
     (case doc_getitem doc page_num of
        Inl e \<Rightarrow> False
      | Inr page \<Rightarrow>
          (case get_images page of
             Inl e \<Rightarrow> False
           | Inr image_list \<Rightarrow>
               list_all2 (image_rel doc page page_num) (enumerate 0 image_list) block))"

section \<open>Sample documents\<close>

text \<open>
  \<open>two.pdf\<close>: two pages. The first places the resource 7 twice, at two distinct
  rectangles, and the resource 9, for which the library finds no rectangle; the
  second places the resource 9 once. \<open>blank.pdf\<close>: one page without images.
  \<open>broken.pdf\<close>: one page whose only image cannot be decoded. Any other path
  cannot be opened.
\<close>

definition two_page0 :: page where
  "two_page0 =
     \<lparr>get_images = Inr [Img 7 ''Im0'', Img 7 ''Im1'', Img 9 ''Im2''],
      get_image_rects =
        (\<lambda>xref. if xref = 7 then Inr [Rect 10 20 100 50, Rect 200 20 100 50] else Inr [])\<rparr>"

definition two_page1 :: page where
  "two_page1 = \<lparr>get_images = Inr [Img 9 ''Im0''], get_image_rects = (\<lambda>xref. Inr [])\<rparr>"

definition two_doc :: document where
  "two_doc =
     \<lparr>doc_len = 2,
      doc_getitem =
        (\<lambda>n. if n = 0 then Inr two_page0 else if n = 1 then Inr two_page1
              else Inl (PyExc ''IndexError'' ''page not in document'')),
      extract_image =
        (\<lambda>xref. if xref = 7 then Inr (BaseImage [77, 97, 110] ''png'')
                 else if xref = 9 then Inr (BaseImage [255, 216] ''jpeg'')
                 else Inl (PyExc ''ValueError'' ''bad xref'')),
      doc_close = Inr ()\<rparr>"

definition blank_doc :: document where
  "blank_doc =
     \<lparr>doc_len = 1,
      doc_getitem = (\<lambda>n. Inr \<lparr>get_images = Inr [], get_image_rects = (\<lambda>xref. Inr [])\<rparr>),
      extract_image = (\<lambda>xref. Inl (PyExc ''ValueError'' ''bad xref'')),
      doc_close = Inr ()\<rparr>"

definition broken_doc :: document where
  "broken_doc =
     \<lparr>doc_len = 1,
      doc_getitem =
        (\<lambda>n. Inr \<lparr>get_images = Inr [Img 5 ''Im0''], get_image_rects = (\<lambda>xref. Inr [])\<rparr>),
      extract_image = (\<lambda>xref. Inl (PyExc ''ValueError'' ''not an image'')),
      doc_close = Inr ()\<rparr>"

definition sample_fitz :: fitz where
  "sample_fitz pdf_path =
     (if pdf_path = ''two.pdf'' then Inr two_doc
      else if pdf_path = ''blank.pdf'' then Inr blank_doc
      else if pdf_path = ''broken.pdf'' then Inr broken_doc
      else Inl (PyExc ''FileNotFoundError'' ''no such file''))"

text \<open>
  \<open>once.pdf\<close>: one page whose enumeration lists the resource 7 once, while the
  geometry lookup knows two distinct rectangles for it.
\<close>

definition once_page :: page where
  "once_page =
     \<lparr>get_images = Inr [Img 7 ''Im0''],
      get_image_rects = (\<lambda>xref. Inr [Rect 10 20 100 50, Rect 200 20 100 50])\<rparr>"

definition once_doc :: document where
  "once_doc =
     \<lparr>doc_len = 1,
      doc_getitem = (\<lambda>n. Inr once_page),
      extract_image = (\<lambda>xref. Inr (BaseImage [77, 97, 110] ''png'')),
      doc_close = Inr ()\<rparr>"

definition once_fitz :: fitz where
  "once_fitz pdf_path = Inr once_doc"

text \<open>What the routine returns on \<open>two.pdf\<close>.\<close>

definition two_records :: "image_record list" where
  "two_records =
     [\<lparr>pageNumber = 1, imageIndex = 0, format = ''png'', base64 = ''TWFu'',
       bbox = BBox (PyFloat 10) (PyFloat 20) (PyFloat 100) (PyFloat 50)\<rparr>,
      \<lparr>pageNumber = 1, imageIndex = 1, format = ''png'', base64 = ''TWFu'',
       bbox = BBox (PyFloat 10) (PyFloat 20) (PyFloat 100) (PyFloat 50)\<rparr>,
      \<lparr>pageNumber = 1, imageIndex = 2, format = ''jpeg'', base64 = ''/9g='',
       bbox = BBox (PyInt 0) (PyInt 0) (PyInt 0) (PyInt 0)\<rparr>,
      \<lparr>pageNumber = 2, imageIndex = 0, format = ''jpeg'', base64 = ''/9g='',
       bbox = BBox (PyInt 0) (PyInt 0) (PyInt 0) (PyInt 0)\<rparr>]"

section \<open>The order of the records\<close>


section \<open>When the routine raises and when it returns\<close>

lemma image_loop_raises:
  "concat (map (image_errors doc page) image_list) = e # es \<Longrightarrow>
   image_loop doc page page_num i image_list acc = Inl e"
proof (induction image_list arbitrary: i acc)
  case Nil
  then show ?case by simp
next
  case (Cons img image_list)
  then show ?case
    by (auto simp: image_errors_def raised_def Let_def split: sum.splits)
qed

lemma image_loop_returns:
  "concat (map (image_errors doc page) image_list) = [] \<Longrightarrow>
   \<exists>out. image_loop doc page page_num i image_list acc = Inr out"
proof (induction image_list arbitrary: i acc)
  case Nil
  then show ?case by simp
next
  case (Cons img image_list)
  then show ?case
    by (auto simp: image_errors_def raised_def Let_def split: sum.splits)
qed

lemma page_loop_raises:
  "concat (map (page_errors doc) page_nums) = e # es \<Longrightarrow>
   page_loop doc page_nums acc = Inl e"
proof (induction page_nums arbitrary: acc)
  case Nil
  then show ?case by simp
next
  case (Cons page_num page_nums)
  show ?case
  proof (cases "page_errors doc page_num")
    case Nil
    then obtain page image_list where p: "doc_getitem doc page_num = Inr page"
      "get_images page = Inr image_list"
      "concat (map (image_errors doc page) image_list) = []"
      by (auto simp: page_errors_def split: sum.splits)
    obtain out where o: "image_loop doc page page_num 0 image_list acc = Inr out"
      using image_loop_returns [OF p(3)] by blast
    from Cons.prems Nil have "concat (map (page_errors doc) page_nums) = e # es" by simp
    then have "page_loop doc page_nums out = Inl e" by (rule Cons.IH)
    with p o show ?thesis by simp
  next
    case (Cons e' es')
    with Cons.prems have e: "e' = e" by simp
    show ?thesis
    proof (cases "doc_getitem doc page_num")
      case (Inl a)
      with Cons e show ?thesis by (simp add: page_errors_def)
    next
      case (Inr page)
      show ?thesis
      proof (cases "get_images page")
        case (Inl a)
        with Inr Cons e show ?thesis by (simp add: page_errors_def)
      next
        case (Inr image_list)
        with \<open>doc_getitem doc page_num = Inr page\<close> Cons e
        have "concat (map (image_errors doc page) image_list) = e # es'"
          by (simp add: page_errors_def)
        then have "image_loop doc page page_num 0 image_list acc = Inl e"
          by (rule image_loop_raises)
        with Inr \<open>doc_getitem doc page_num = Inr page\<close> show ?thesis by simp
      qed
    qed
  qed
qed

lemma page_loop_returns:
  "concat (map (page_errors doc) page_nums) = [] \<Longrightarrow>
   \<exists>out. page_loop doc page_nums acc = Inr out"
proof (induction page_nums arbitrary: acc)
  case Nil
  then show ?case by simp
next
  case (Cons page_num page_nums)
  from Cons.prems have "page_errors doc page_num = []" by simp
  then obtain page image_list where p: "doc_getitem doc page_num = Inr page"
      "get_images page = Inr image_list"
      "concat (map (image_errors doc page) image_list) = []"
      by (auto simp: page_errors_def split: sum.splits)
  obtain out where o: "image_loop doc page page_num 0 image_list acc = Inr out"
      using image_loop_returns [OF p(3)] by blast
  from Cons.prems have "concat (map (page_errors doc) page_nums) = []" by simp
  then obtain out' where "page_loop doc page_nums out = Inr out'"
    using Cons.IH by blast
  with p o show ?case by simp
qed

lemma try_body_raises:
  assumes "library_errors fitz_open pdf_path = e # es"
  shows "fst (try_body fitz_open pdf_path) = Inl e"
proof (cases "fitz_open pdf_path")
  case (Inl a)
  with assms show ?thesis by (simp add: library_errors_def try_body_def)
next
  case (Inr doc)
  show ?thesis
  proof (cases "concat (map (page_errors doc) [0..<doc_len doc])")
    case Nil
    then obtain out where "page_loop doc [0..<doc_len doc] [] = Inr out"
      using page_loop_returns by blast
    with assms Inr Nil show ?thesis
      by (auto simp: library_errors_def try_body_def raised_def split: sum.splits)
  next
    case (Cons e' es')
    with assms Inr have "e' = e" by (simp add: library_errors_def)
    with Cons have "page_loop doc [0..<doc_len doc] [] = Inl e"
      using page_loop_raises by blast
    with Inr show ?thesis by (simp add: try_body_def)
  qed
qed

lemma try_body_returns:
  assumes "library_errors fitz_open pdf_path = []"
  shows "\<exists>out. fst (try_body fitz_open pdf_path) = Inr out"
proof -
  from assms obtain doc where d: "fitz_open pdf_path = Inr doc"
    "concat (map (page_errors doc) [0..<doc_len doc]) = []" "raised (doc_close doc) = []"
    by (auto simp: library_errors_def split: sum.splits)
  obtain out where "page_loop doc [0..<doc_len doc] [] = Inr out"
    using page_loop_returns [OF d(2)] by blast
  with d show ?thesis
    by (auto simp: try_body_def raised_def split: sum.splits)
qed

lemma extract_raises:
  assumes "library_errors fitz_open pdf_path = e # es"
  shows "fst (extract_images_from_pdf fitz_open pdf_path) =
           Inl (PyExc ''Exception'' (''Failed to extract images: '' @ exc_str e))"
proof -
  obtain calls where "try_body fitz_open pdf_path = (Inl e, calls)"
    using try_body_raises [OF assms] by (cases "try_body fitz_open pdf_path") simp
  then show ?thesis by (simp add: extract_images_from_pdf_def)
qed

lemma extract_returns:
  assumes "library_errors fitz_open pdf_path = []"
  shows "\<exists>images. fst (extract_images_from_pdf fitz_open pdf_path) = Inr images"
proof -
  obtain out calls where "try_body fitz_open pdf_path = (Inr out, calls)"
    using try_body_returns [OF assms] by (cases "try_body fitz_open pdf_path") auto
  then show ?thesis by (simp add: extract_images_from_pdf_def)
qed

lemma main_returns:
  assumes "length argv = 2"
    and "fst (extract_images_from_pdf fitz_open (argv ! 1)) = Inr images"
  shows "main fitz_open argv =
           \<lparr>stdout = [Json (JObj [(''success'', JBool True),
                                  (''totalImages'', JInt (int (length images))),
                                  (''images'', JArr (map dumps_record images))])],
            stderr = [],
            exit_code = 0,
            lib_calls = snd (extract_images_from_pdf fitz_open (argv ! 1))\<rparr>"
  using assms by (cases "extract_images_from_pdf fitz_open (argv ! 1)") (simp add: main_def)

lemma main_raises:
  assumes "length argv = 2"
    and "fst (extract_images_from_pdf fitz_open (argv ! 1)) = Inl e"
  shows "main fitz_open argv =
           \<lparr>stdout = [],
            stderr = [Json (JObj [(''success'', JBool False), (''error'', JStr (exc_str e))])],
            exit_code = 1,
            lib_calls = snd (extract_images_from_pdf fitz_open (argv ! 1))\<rparr>"
  using assms by (cases "extract_images_from_pdf fitz_open (argv ! 1)") (simp add: main_def)

lemma page_loop_no_images:
  "\<forall>pn\<in>set page_nums. \<exists>page. doc_getitem doc pn = Inr page \<and> get_images page = Inr [] \<Longrightarrow>
   page_loop doc page_nums acc = Inr acc"
  by (induction page_nums arbitrary: acc) auto

section \<open>The shape of a successful result\<close>

lemma image_loop_block:
  "image_loop doc page page_num i image_list acc = Inr out \<Longrightarrow>
   \<exists>block. out = acc @ block \<and> list_all2 (image_rel doc page page_num) (enumerate i image_list) block"
proof (induction image_list arbitrary: i acc)
  case Nil
  then show ?case by simp
next
  case (Cons img image_list)
  from Cons.prems obtain base_image rects where
    b: "extract_image doc (img_0 img) = Inr base_image" and
    r: "get_image_rects page (img_0 img) = Inr rects"
    by (auto simp: Let_def split: sum.splits)
  define new where "new = \<lparr>pageNumber = int page_num + 1,
                    imageIndex = int i,
                    format = base_image_ext base_image,
                    base64 = b64encode (base_image_image base_image),
                    bbox = (case rects of
                              rect # _ \<Rightarrow>
                                BBox (PyFloat (rect_x0 rect)) (PyFloat (rect_y0 rect))
                                     (PyFloat (rect_width rect)) (PyFloat (rect_height rect))
                            | [] \<Rightarrow> BBox (PyInt 0) (PyInt 0) (PyInt 0) (PyInt 0))\<rparr>"
  from Cons.prems b r have "image_loop doc page page_num (Suc i) image_list (acc @ [new]) = Inr out"
    by (simp add: new_def)
  then obtain block where
    o: "out = (acc @ [new]) @ block" and
    l: "list_all2 (image_rel doc page page_num) (enumerate (Suc i) image_list) block"
    using Cons.IH by blast
  have "image_rel doc page page_num (i, img) new"
    by (simp add: image_rel_def b r new_def)
  with l have "list_all2 (image_rel doc page page_num) (enumerate i (img # image_list)) (new # block)"
    by simp
  with o show ?case by auto
qed

lemma page_loop_blocks:
  "page_loop doc page_nums acc = Inr out \<Longrightarrow>
   \<exists>blocks. out = acc @ concat blocks \<and> list_all2 (page_rel doc) page_nums blocks"
proof (induction page_nums arbitrary: acc)
  case Nil
  then show ?case by simp
next
  case (Cons page_num page_nums)
  from Cons.prems obtain page image_list mid where
    p: "doc_getitem doc page_num = Inr page" and
    g: "get_images page = Inr image_list" and
    m: "image_loop doc page page_num 0 image_list acc = Inr mid" and
    c: "page_loop doc page_nums mid = Inr out"
    by (auto split: sum.splits)
  from image_loop_block [OF m] obtain block where
    b: "mid = acc @ block" "list_all2 (image_rel doc page page_num) (enumerate 0 image_list) block"
    by blast
  from Cons.IH [OF c] obtain blocks where
    bs: "out = mid @ concat blocks" "list_all2 (page_rel doc) page_nums blocks"
    by blast
  from p g b(2) have "page_rel doc page_num block"
    by (simp add: page_rel_def)
  with bs(2) have "list_all2 (page_rel doc) (page_num # page_nums) (block # blocks)"
    by simp
  moreover from b(1) bs(1) have "out = acc @ concat (block # blocks)" by simp
  ultimately show ?case by blast
qed

lemma extract_returns_blocks:
  assumes "fst (extract_images_from_pdf fitz_open pdf_path) = Inr images"
  shows "\<exists>doc blocks. fitz_open pdf_path = Inr doc \<and> images = concat blocks \<and>
           length blocks = doc_len doc \<and> (\<forall>pn<doc_len doc. page_rel doc pn (blocks ! pn))"
proof -
  from assms obtain doc where d: "fitz_open pdf_path = Inr doc"
    and l: "page_loop doc [0..<doc_len doc] [] = Inr images"
    by (auto simp: extract_images_from_pdf_def try_body_def split: sum.splits prod.splits)
  from page_loop_blocks [OF l] obtain blocks where
    b: "images = concat blocks" "list_all2 (page_rel doc) [0..<doc_len doc] blocks"
    by auto
  from b(2) have "length blocks = doc_len doc"
    by (auto dest: list_all2_lengthD)
  moreover from b(2) have "\<forall>pn<doc_len doc. page_rel doc pn (blocks ! pn)"
    by (auto simp: list_all2_conv_all_nth)
  ultimately show ?thesis using d b(1) by blast
qed

lemma page_rel_nth:
  assumes "page_rel doc pn block" "doc_getitem doc pn = Inr page" "get_images page = Inr image_list"
  shows "length block = length image_list \<and>
         (\<forall>k<length image_list. image_rel doc page pn (k, image_list ! k) (block ! k))"
  using assms
  by (auto simp: page_rel_def list_all2_conv_all_nth nth_enumerate_eq)

lemma image_rel_fields:
  assumes "image_rel doc page pn (k, img) r"
  shows "\<exists>base_image rects.
           extract_image doc (img_0 img) = Inr base_image \<and>
           get_image_rects page (img_0 img) = Inr rects \<and>
           pageNumber r = int pn + 1 \<and> imageIndex r = int k \<and>
           format r = base_image_ext base_image \<and>
           base64 r = b64encode (base_image_image base_image) \<and>
           bbox r = (case rects of
                       rect # _ \<Rightarrow>
                         BBox (PyFloat (rect_x0 rect)) (PyFloat (rect_y0 rect))
                              (PyFloat (rect_width rect)) (PyFloat (rect_height rect))
                     | [] \<Rightarrow> BBox (PyInt 0) (PyInt 0) (PyInt 0) (PyInt 0))"
  using assms by (auto simp: image_rel_def split: sum.splits)

lemma record_origin:
  assumes "fst (extract_images_from_pdf fitz_open pdf_path) = Inr images"
    and "r \<in> set images"
  shows "\<exists>doc pn page image_list k.
           fitz_open pdf_path = Inr doc \<and> pn < doc_len doc \<and>
           doc_getitem doc pn = Inr page \<and> get_images page = Inr image_list \<and>
           k < length image_list \<and> image_rel doc page pn (k, image_list ! k) r"
proof -
  from extract_returns_blocks [OF assms(1)] obtain doc blocks where
    d: "fitz_open pdf_path = Inr doc" and i: "images = concat blocks" and
    l: "length blocks = doc_len doc" and p: "\<forall>pn<doc_len doc. page_rel doc pn (blocks ! pn)"
    by blast
  from assms(2) i obtain block where "block \<in> set blocks" "r \<in> set block" by auto
  then obtain pn k where pn: "pn < length blocks" "block = blocks ! pn"
    and k: "k < length block" "r = block ! k"
    by (auto simp: in_set_conv_nth)
  from p pn l have pr: "page_rel doc pn block" by simp
  then obtain page image_list where
    g: "doc_getitem doc pn = Inr page" "get_images page = Inr image_list"
    by (auto simp: page_rel_def split: sum.splits)
  from page_rel_nth [OF pr g] k
  have "k < length image_list" "image_rel doc page pn (k, image_list ! k) r" by auto
  moreover from pn(1) l have "pn < doc_len doc" by simp
  ultimately show ?thesis using d g by blast
qed

text \<open>
  Where the bounding box of a record comes from: the geometry lookup made for the
  entry of the enumeration the record was appended for.
\<close>

lemma record_bbox:
  assumes "fst (extract_images_from_pdf fitz_open pdf_path) = Inr images"
    and "r \<in> set images"
  shows "\<exists>doc page image_list rects.
           fitz_open pdf_path = Inr doc \<and>
           doc_getitem doc (nat (pageNumber r - 1)) = Inr page \<and>
           get_images page = Inr image_list \<and>
           nat (imageIndex r) < length image_list \<and>
           get_image_rects page (img_0 (image_list ! nat (imageIndex r))) = Inr rects \<and>
           bbox r = (case rects of
                       rect # _ \<Rightarrow>
                         BBox (PyFloat (rect_x0 rect)) (PyFloat (rect_y0 rect))
                              (PyFloat (rect_width rect)) (PyFloat (rect_height rect))
                     | [] \<Rightarrow> BBox (PyInt 0) (PyInt 0) (PyInt 0) (PyInt 0))"
proof -
  from record_origin [OF assms] obtain doc pn page image_list k where
    o: "fitz_open pdf_path = Inr doc" "pn < doc_len doc"
       "doc_getitem doc pn = Inr page" "get_images page = Inr image_list"
       "k < length image_list" "image_rel doc page pn (k, image_list ! k) r"
    by blast
  from image_rel_fields [OF o(6)] obtain rects where
    f: "get_image_rects page (img_0 (image_list ! k)) = Inr rects"
       "pageNumber r = int pn + 1" "imageIndex r = int k"
       "bbox r = (case rects of
                       rect # _ \<Rightarrow>
                         BBox (PyFloat (rect_x0 rect)) (PyFloat (rect_y0 rect))
                              (PyFloat (rect_width rect)) (PyFloat (rect_height rect))
                     | [] \<Rightarrow> BBox (PyInt 0) (PyInt 0) (PyInt 0) (PyInt 0))"
    by blast
  from f(2) have "nat (pageNumber r - 1) = pn" by simp
  moreover from f(3) have "nat (imageIndex r) = k" by simp
  ultimately show ?thesis using o f(1,4) by blast
qed

lemma bbox_of_rect_inj:
  assumes "R1 \<noteq> R2"
  shows "BBox (PyFloat (rect_x0 R1)) (PyFloat (rect_y0 R1))
              (PyFloat (rect_width R1)) (PyFloat (rect_height R1)) \<noteq>
         BBox (PyFloat (rect_x0 R2)) (PyFloat (rect_y0 R2))
              (PyFloat (rect_width R2)) (PyFloat (rect_height R2))"
  using assms by (cases R1; cases R2) simp

lemma concat_member:
  assumes "r \<in> set (concat bs)"
  shows "\<exists>q<length bs. r \<in> set (bs ! q)"
proof -
  from assms obtain b where "b \<in> set bs" "r \<in> set b" by auto
  then show ?thesis by (metis in_set_conv_nth)
qed

lemma page_block_keys:
  assumes "page_rel doc pn block" "doc_getitem doc pn = Inr page" "get_images page = Inr image_list"
  shows "length block = length image_list"
    and "\<forall>k<length block. pageNumber (block ! k) = int pn + 1 \<and> imageIndex (block ! k) = int k"
proof -
  note n = page_rel_nth [OF assms]
  from n show "length block = length image_list" by simp
  show "\<forall>k<length block. pageNumber (block ! k) = int pn + 1 \<and> imageIndex (block ! k) = int k"
  proof (intro allI impI)
    fix k assume "k < length block"
    with n have "image_rel doc page pn (k, image_list ! k) (block ! k)" by simp
    from image_rel_fields [OF this]
    show "pageNumber (block ! k) = int pn + 1 \<and> imageIndex (block ! k) = int k" by blast
  qed
qed

lemma page_rel_pageNumber:
  assumes "page_rel doc pn block" "r \<in> set block"
  shows "pageNumber r = int pn + 1"
proof -
  from assms(1) obtain page image_list where
    g: "doc_getitem doc pn = Inr page" "get_images page = Inr image_list"
    by (auto simp: page_rel_def split: sum.splits)
  from assms(2) obtain k where "k < length block" "r = block ! k"
    by (auto simp: in_set_conv_nth)
  with page_block_keys(2) [OF assms(1) g] show ?thesis by simp
qed


lemma filter_page_concat:
  assumes "\<forall>q<length bs. \<forall>r\<in>set (bs ! q). pageNumber r = int (off + q) + 1"
    and "p < length bs"
  shows "filter (\<lambda>r. pageNumber r = int (off + p) + 1) (concat bs) = bs ! p"
  using assms
proof (induction bs arbitrary: off p)
  case Nil
  then show ?case by simp
next
  case (Cons b bs)
  have "0 < length (b # bs)" by simp
  with Cons.prems(1) have "\<forall>r\<in>set ((b # bs) ! 0). pageNumber r = int (off + 0) + 1"
    by blast
  then have here: "\<forall>r\<in>set b. pageNumber r = int off + 1" by simp
  have later: "\<forall>q<length bs. \<forall>r\<in>set (bs ! q). pageNumber r = int (Suc off + q) + 1"
  proof (intro allI impI)
    fix q assume "q < length bs"
    then have "Suc q < length (b # bs)" by simp
    with Cons.prems(1) have "\<forall>r\<in>set ((b # bs) ! Suc q). pageNumber r = int (off + Suc q) + 1"
      by blast
    then show "\<forall>r\<in>set (bs ! q). pageNumber r = int (Suc off + q) + 1" by simp
  qed
  show ?case
  proof (cases p)
    case 0
    have "\<forall>r\<in>set (concat bs). pageNumber r \<noteq> int off + 1"
    proof
      fix r assume "r \<in> set (concat bs)"
      from concat_member [OF this] obtain q where q: "q < length bs" "r \<in> set (bs ! q)"
        by blast
      from later q(1) have "\<forall>r\<in>set (bs ! q). pageNumber r = int (Suc off + q) + 1" by simp
      with q(2) have "pageNumber r = int (Suc off + q) + 1" by simp
      then show "pageNumber r \<noteq> int off + 1" by simp
    qed
    then have "filter (\<lambda>r. pageNumber r = int off + 1) (concat bs) = []"
      by (simp add: filter_empty_conv)
    moreover from here have "filter (\<lambda>r. pageNumber r = int off + 1) b = b"
      by (simp add: filter_id_conv)
    ultimately show ?thesis using 0 by simp
  next
    case (Suc p')
    with Cons.prems(2) have p': "p' < length bs" by simp
    from here have "filter (\<lambda>r. pageNumber r = int (off + Suc p') + 1) b = []"
      by (auto simp: filter_empty_conv)
    moreover from Cons.IH [OF later p']
    have "filter (\<lambda>r. pageNumber r = int (off + Suc p') + 1) (concat bs) = bs ! p'" by simp
    ultimately show ?thesis using Suc by simp
  qed
qed



lemma page_block:
  assumes "fitz_open pdf_path = Inr doc"
    and "fst (extract_images_from_pdf fitz_open pdf_path) = Inr images"
    and "pn < doc_len doc"
  shows "page_rel doc pn (filter (\<lambda>r. pageNumber r = int pn + 1) images)"
proof -
  from extract_returns_blocks [OF assms(2)] assms(1) obtain blocks where
    i: "images = concat blocks" and
    l: "length blocks = doc_len doc" and p: "\<forall>pn<doc_len doc. page_rel doc pn (blocks ! pn)"
    by auto
  have num: "\<forall>q<length blocks. \<forall>r\<in>set (blocks ! q). pageNumber r = int (0 + q) + 1"
  proof (intro allI impI ballI)
    fix q r assume "q < length blocks" and r: "r \<in> set (blocks ! q)"
    with p l have "page_rel doc q (blocks ! q)" by simp
    from page_rel_pageNumber [OF this r] show "pageNumber r = int (0 + q) + 1" by simp
  qed
  from assms(3) l have "pn < length blocks" by simp
  from filter_page_concat [OF num this] i
  have "filter (\<lambda>r. pageNumber r = int pn + 1) images = blocks ! pn" by simp
  with p assms(3) show ?thesis by simp
qed

section \<open>Decoding what b64encode produced\<close>

lemma index_of_nth:
  "distinct xs \<Longrightarrow> k < length xs \<Longrightarrow> index_of (xs ! k) xs i = Some (i + k)"
proof (induction xs arbitrary: i k)
  case Nil
  then show ?case by simp
next
  case (Cons d ds)
  show ?case
  proof (cases k)
    case 0
    then show ?thesis by simp
  next
    case (Suc k')
    with Cons.prems have "k' < length ds" "distinct ds" "ds ! k' \<noteq> d" by auto
    with Cons.IH [of k' "Suc i"] Suc show ?thesis by simp
  qed
qed

lemma length_b64_alphabet: "length b64_alphabet = 64"
  by (simp add: b64_alphabet_def)

lemma distinct_b64_alphabet: "distinct b64_alphabet"
  by (simp add: b64_alphabet_def)

lemma b64_value_char: "b64_value (b64_char n) = Some (n mod 64)"
  unfolding b64_value_def b64_char_def
  using index_of_nth [OF distinct_b64_alphabet, of "n mod 64" 0]
  by (simp add: length_b64_alphabet)

lemma b64_char_in_alphabet: "b64_char n \<in> set b64_alphabet"
  unfolding b64_char_def by (rule nth_mem) (simp add: length_b64_alphabet)

lemma pad_not_in_alphabet: "CHR ''='' \<notin> set b64_alphabet"
  by (simp add: b64_alphabet_def)

lemma b64_char_not_pad: "b64_char n \<noteq> CHR ''=''"
  using b64_char_in_alphabet [of n] pad_not_in_alphabet by auto

lemma b64_value_A: "b64_value (CHR ''A'') = Some 0"
  by (simp add: b64_value_def b64_alphabet_def)

lemma div_4096: "(n::nat) div 4096 = n div 64 div 64"
  by (simp add: div_mult2_eq [symmetric])

lemma div_262144: "(n::nat) div 262144 = n div 64 div 64 div 64"
  by (simp add: div_mult2_eq [symmetric])

lemma sextets_join:
  assumes "n < 16777216"
  shows "((n div 262144 mod 64 * 64 + n div 4096 mod 64) * 64 + n div 64 mod 64) * 64 + n mod 64
           = (n::nat)"
proof -
  from assms have "n div 262144 < 64" by simp
  then have "n div 262144 mod 64 = n div 64 div 64 div 64" by (simp add: div_262144)
  then show ?thesis by (simp add: div_4096)
qed

lemma sextets_join3:
  assumes "n < 16777216"
  shows "(n div 262144 mod 64 * 64 + n div 4096 mod 64) * 64 + n div 64 mod 64 = (n::nat) div 64"
proof -
  from assms have "n div 262144 < 64" by simp
  then have "n div 262144 mod 64 = n div 64 div 64 div 64" by (simp add: div_262144)
  then show ?thesis by (simp add: div_4096)
qed

lemma sextets_join2:
  assumes "n < 16777216"
  shows "n div 262144 mod 64 * 64 + n div 4096 mod 64 = (n::nat) div 4096"
proof -
  from assms have "n div 262144 < 64" by simp
  then have "n div 262144 mod 64 = n div 64 div 64 div 64" by (simp add: div_262144)
  then show ?thesis by (simp add: div_4096)
qed

lemma b64_group_chars:
  "b64_group (b64_char x0) (b64_char x1) (b64_char x2) (b64_char x3) =
     Some (((x0 mod 64 * 64 + x1 mod 64) * 64 + x2 mod 64) * 64 + x3 mod 64)"
  by (simp add: b64_group_def b64_value_char)

lemma b64_group_chars_pad1:
  "b64_group (b64_char x0) (b64_char x1) (b64_char x2) (CHR ''A'') =
     Some (((x0 mod 64 * 64 + x1 mod 64) * 64 + x2 mod 64) * 64)"
  by (simp add: b64_group_def b64_value_char b64_value_A)

lemma b64_group_chars_pad2:
  "b64_group (b64_char x0) (b64_char x1) (CHR ''A'') (CHR ''A'') =
     Some ((x0 mod 64 * 64 + x1 mod 64) * 64 * 64)"
  by (simp add: b64_group_def b64_value_char b64_value_A)

lemma b64decode_full:
  assumes "n < 16777216"
  shows "b64decode (b64_char (n div 262144) # b64_char (n div 4096) # b64_char (n div 64) #
                    b64_char n # cs) =
           (case b64decode cs of
              None \<Rightarrow> None
            | Some bs \<Rightarrow> Some (of_nat (n div 65536) # of_nat (n div 256) # of_nat n # bs))"
  unfolding b64decode.simps b64_group_chars sextets_join [OF assms]
  by (simp add: b64_char_not_pad)

lemma b64decode_pad1:
  assumes "n < 16777216"
  shows "b64decode [b64_char (n div 262144), b64_char (n div 4096), b64_char (n div 64), CHR ''=''] =
           Some [of_nat (n div 64 * 64 div 65536), of_nat (n div 64 * 64 div 256)]"
  unfolding b64decode.simps b64_group_chars_pad1 sextets_join3 [OF assms]
  by (simp add: b64_char_not_pad)

lemma b64decode_pad2:
  assumes "n < 16777216"
  shows "b64decode [b64_char (n div 262144), b64_char (n div 4096), CHR ''='', CHR ''=''] =
           Some [of_nat (n div 4096 * 64 * 64 div 65536)]"
  unfolding b64decode.simps b64_group_chars_pad2 sextets_join2 [OF assms]
  by simp

lemma byte_of_nat_low: "(of_nat (x * 256 + unat b) :: byte) = b"
proof -
  have "(of_nat (x * 256 + unat b) :: byte) = of_nat (unat b)"
    unfolding word_of_nat_eq_iff take_bit_eq_mod by simp
  then show ?thesis by simp
qed

lemma unat_byte_less: "unat (b :: byte) < 256"
  using unsigned_less [of b] by simp

lemma b64decode_b64encode: "b64decode (b64encode bs) = Some bs"
proof (induction bs rule: b64encode.induct)
  case 1
  show ?case by simp
next
  case (2 a)
  define n where "n = unat a * 65536"
  have enc: "b64encode [a] =
               [b64_char (n div 262144), b64_char (n div 4096), CHR ''='', CHR ''='']"
    unfolding n_def by (simp only: b64encode.simps Let_def)
  have ub: "unat a < 256" by (rule unat_byte_less)
  then have lt: "n < 16777216" by (simp add: n_def)
  have "n div 4096 * 64 * 64 div 65536 = unat a" by (simp add: n_def)
  then show ?case unfolding enc b64decode_pad2 [OF lt] by simp
next
  case (3 a b)
  define n where "n = unat a * 65536 + unat b * 256"
  have enc: "b64encode [a, b] =
               [b64_char (n div 262144), b64_char (n div 4096), b64_char (n div 64), CHR ''='']"
    unfolding n_def by (simp only: b64encode.simps Let_def)
  have ub: "unat a < 256" "unat b < 256" by (rule unat_byte_less)+
  then have lt: "n < 16777216" by (simp add: n_def)
  have m: "n div 64 * 64 = n" by (simp add: n_def)
  from ub have "n div 65536 = unat a" by (simp add: n_def)
  then have a: "(of_nat (n div 65536) :: byte) = a" by simp
  from ub have "n div 256 = unat a * 256 + unat b" by (simp add: n_def)
  then have b: "(of_nat (n div 256) :: byte) = b" by (simp only: byte_of_nat_low)
  show ?case unfolding enc b64decode_pad1 [OF lt] m a b by (rule refl)
next
  case (4 a b c rest)
  define n where "n = unat a * 65536 + unat b * 256 + unat c"
  have enc: "b64encode (a # b # c # rest) =
               b64_char (n div 262144) # b64_char (n div 4096) # b64_char (n div 64) #
               b64_char n # b64encode rest"
    unfolding n_def by (simp only: b64encode.simps Let_def append.simps)
  have ub: "unat a < 256" "unat b < 256" "unat c < 256" by (rule unat_byte_less)+
  then have lt: "n < 16777216" by (simp add: n_def)
  from ub have "n div 65536 = unat a" by (simp add: n_def)
  then have a: "(of_nat (n div 65536) :: byte) = a" by simp
  from ub have "n div 256 = unat a * 256 + unat b" by (simp add: n_def)
  then have b: "(of_nat (n div 256) :: byte) = b" by (simp only: byte_of_nat_low)
  have "n = (unat a * 256 + unat b) * 256 + unat c" by (simp add: n_def)
  then have c: "(of_nat n :: byte) = c" by (simp only: byte_of_nat_low)
  from 4 have "b64decode (b64encode rest) = Some rest" by simp
  then show ?case unfolding enc b64decode_full [OF lt] a b c by simp
qed

lemma b64encode_alphabet: "set (b64encode bs) \<subseteq> set b64_alphabet \<union> {CHR ''=''}"
  by (induction bs rule: b64encode.induct) (simp_all add: Let_def b64_char_in_alphabet)

lemma newline_not_b64: "CHR 0x0A \<notin> set b64_alphabet \<union> {CHR ''=''}"
  by (simp add: b64_alphabet_def)

lemma url_safe_not_b64: "CHR ''-'' \<notin> set b64_alphabet \<union> {CHR ''=''}"
  "CHR ''_'' \<notin> set b64_alphabet \<union> {CHR ''=''}"
  by (simp_all add: b64_alphabet_def)

section \<open>Sample runs\<close>

lemma library_errors_blank: "library_errors sample_fitz ''blank.pdf'' = []"
  by (simp add: library_errors_def page_errors_def raised_def sample_fitz_def blank_doc_def)

lemma library_errors_broken:
  "library_errors sample_fitz ''broken.pdf'' = [PyExc ''ValueError'' ''not an image'']"
  by (simp add: library_errors_def page_errors_def image_errors_def raised_def
      sample_fitz_def broken_doc_def)

lemma extract_blank:
  "extract_images_from_pdf sample_fitz ''blank.pdf'' =
     (Inr [], [FitzOpen ''blank.pdf'', DocClose ''blank.pdf''])"
  by (simp add: extract_images_from_pdf_def try_body_def sample_fitz_def blank_doc_def)

lemma extract_broken:
  "extract_images_from_pdf sample_fitz ''broken.pdf'' =
     (Inl (PyExc ''Exception'' ''Failed to extract images: not an image''),
      [FitzOpen ''broken.pdf''])"
  by (simp add: extract_images_from_pdf_def try_body_def sample_fitz_def broken_doc_def)

lemma upt_0_2: "[0..<2] = [0, Suc 0]"
  by (simp add: upt_conv_Cons numeral_2_eq_2)

lemma extract_two:
  "extract_images_from_pdf sample_fitz ''two.pdf'' =
     (Inr two_records, [FitzOpen ''two.pdf'', DocClose ''two.pdf''])"
  by (simp add: extract_images_from_pdf_def try_body_def sample_fitz_def two_doc_def
      two_page0_def two_page1_def two_records_def b64_char_def b64_alphabet_def upt_0_2)

lemma extract_once:
  "extract_images_from_pdf once_fitz ''once.pdf'' =
     (Inr [\<lparr>pageNumber = 1, imageIndex = 0, format = ''png'', base64 = ''TWFu'',
            bbox = BBox (PyFloat 10) (PyFloat 20) (PyFloat 100) (PyFloat 50)\<rparr>],
      [FitzOpen ''once.pdf'', DocClose ''once.pdf''])"
  by (simp add: extract_images_from_pdf_def try_body_def once_fitz_def once_doc_def
      once_page_def b64_char_def b64_alphabet_def)

section \<open>Claims\<close>

text \<open>
  C1. The claim: whenever the open succeeded, the document is closed before the
  routine returns or raises. The routine closes the document on the path that
  returns only. On \<open>broken.pdf\<close> the open succeeds, the decode of the first image
  raises, and the routine raises with \<open>fitz.open\<close> as the only handle call made
  and no \<open>doc.close()\<close>; on \<open>blank.pdf\<close>, which returns, the close follows the open.
\<close>

theorem extract_raises_without_close:
  "sample_fitz ''broken.pdf'' = Inr broken_doc \<and>
   extract_images_from_pdf sample_fitz ''broken.pdf'' =
     (Inl (PyExc ''Exception'' ''Failed to extract images: not an image''),
      [FitzOpen ''broken.pdf'']) \<and>
   DocClose ''broken.pdf'' \<notin> set (snd (extract_images_from_pdf sample_fitz ''broken.pdf'')) \<and>
   extract_images_from_pdf sample_fitz ''blank.pdf'' =
     (Inr [], [FitzOpen ''blank.pdf'', DocClose ''blank.pdf''])"
  by (simp add: extract_broken extract_blank) (simp add: sample_fitz_def)

text \<open>
  C2. If any library call of the traversal raises (the open, a page load, an image
  enumeration, a decode, a geometry lookup, or the close), the routine raises one
  exception of class \<open>Exception\<close> whose text is the prefix followed by the text of
  the first exception raised; the result carries no records.
\<close>

theorem extract_failure_is_wrapped:
  assumes "library_errors fitz_open pdf_path = e # es"
  shows "fst (extract_images_from_pdf fitz_open pdf_path) =
           Inl (PyExc ''Exception'' (''Failed to extract images: '' @ exc_str e))"
proof -
  obtain calls where "try_body fitz_open pdf_path = (Inl e, calls)"
    using try_body_raises [OF assms] by (cases "try_body fitz_open pdf_path") simp
  then show ?thesis by (simp add: extract_images_from_pdf_def)
qed

theorem extract_failure_is_wrapped_witness:
  "library_errors sample_fitz ''broken.pdf'' = [PyExc ''ValueError'' ''not an image''] \<and>
   fst (extract_images_from_pdf sample_fitz ''broken.pdf'') =
     Inl (PyExc ''Exception'' ''Failed to extract images: not an image'')"
proof -
  have h: "library_errors sample_fitz ''broken.pdf'' = [PyExc ''ValueError'' ''not an image'']"
    by (rule library_errors_broken)
  from extract_failure_is_wrapped [OF h] h show ?thesis by simp
qed

text \<open>
  C3. The claim: the bounding box of every record has four floating-point fields,
  built from the first rectangle when the geometry lookup returns one and all zero
  when it returns none. The branch with a rectangle converts each field with
  \<open>float(...)\<close>; the default branch writes the integer literal \<open>0\<close>. At
  \<open>two.pdf\<close> the third record belongs to a resource with no rectangle: its four
  fields are ints and are printed as \<open>0\<close>. The first record, which has a
  rectangle, has four floats.
\<close>

theorem default_bbox_not_float:
  "fst (extract_images_from_pdf sample_fitz ''two.pdf'') = Inr two_records \<and>
   get_image_rects two_page0 (img_0 (Img 9 ''Im2'')) = Inr [] \<and>
   bbox (two_records ! 2) = BBox (PyInt 0) (PyInt 0) (PyInt 0) (PyInt 0) \<and>
   \<not> is_float (bbox_x (bbox (two_records ! 2))) \<and>
   \<not> is_float (bbox_y (bbox (two_records ! 2))) \<and>
   \<not> is_float (bbox_width (bbox (two_records ! 2))) \<and>
   \<not> is_float (bbox_height (bbox (two_records ! 2))) \<and>
   dumps_bbox (bbox (two_records ! 2)) =
     JObj [(''x'', JInt 0), (''y'', JInt 0), (''width'', JInt 0), (''height'', JInt 0)] \<and>
   get_image_rects two_page0 (img_0 (Img 7 ''Im0'')) =
     Inr [Rect 10 20 100 50, Rect 200 20 100 50] \<and>
   is_float (bbox_x (bbox (two_records ! 0))) \<and>
   is_float (bbox_y (bbox (two_records ! 0))) \<and>
   is_float (bbox_width (bbox (two_records ! 0))) \<and>
   is_float (bbox_height (bbox (two_records ! 0))) \<and>
   dumps_bbox (bbox (two_records ! 0)) =
     JObj [(''x'', JFloat 10), (''y'', JFloat 20), (''width'', JFloat 100),
           (''height'', JFloat 50)]"
  by (simp add: extract_two) (simp add: two_records_def two_page0_def dumps_bbox_def)

text \<open>
  C4, as stated. At \<open>two.pdf\<close> the first page enumerates the resource 7 twice and
  the library knows two distinct rectangles for it: the geometry lookup is by
  resource, so both records carry the first rectangle and neither carries the
  second. At \<open>once.pdf\<close> the same two rectangles are known, the resource is
  enumerated once, and the output has one record, not two.
\<close>

theorem same_resource_bbox_shared:
  "fst (extract_images_from_pdf sample_fitz ''two.pdf'') = Inr two_records \<and>
   get_images two_page0 = Inr [Img 7 ''Im0'', Img 7 ''Im1'', Img 9 ''Im2''] \<and>
   get_image_rects two_page0 7 = Inr [Rect 10 20 100 50, Rect 200 20 100 50] \<and>
   imageIndex (two_records ! 0) = 0 \<and> imageIndex (two_records ! 1) = 1 \<and>
   bbox (two_records ! 0) = BBox (PyFloat 10) (PyFloat 20) (PyFloat 100) (PyFloat 50) \<and>
   bbox (two_records ! 1) = bbox (two_records ! 0) \<and>
   bbox (two_records ! 1) \<noteq> BBox (PyFloat 200) (PyFloat 20) (PyFloat 100) (PyFloat 50) \<and>
   get_images once_page = Inr [Img 7 ''Im0''] \<and>
   get_image_rects once_page 7 = Inr [Rect 10 20 100 50, Rect 200 20 100 50] \<and>
   fst (extract_images_from_pdf once_fitz ''once.pdf'') =
     Inr [\<lparr>pageNumber = 1, imageIndex = 0, format = ''png'', base64 = ''TWFu'',
           bbox = BBox (PyFloat 10) (PyFloat 20) (PyFloat 100) (PyFloat 50)\<rparr>]"
  by (simp add: extract_two extract_once) (simp add: two_records_def two_page0_def once_page_def)

text \<open>
  C4, amended. On a page where the geometry lookup returns two distinct rectangles
  first for a resource, the records of the page correspond, in order, to the
  entries of the page's enumeration, so there is one record for each entry that
  names the resource. Each such record has the entry's position as image index,
  the format and the base64 text of the decoded resource, and the bounding box
  built from the first rectangle returned, not from the second. Any two of them
  have the same format, the same base64 text and the same bounding box.
\<close>

theorem same_resource_records:
  assumes "fitz_open pdf_path = Inr doc"
    and "fst (extract_images_from_pdf fitz_open pdf_path) = Inr images"
    and "pn < doc_len doc"
    and "doc_getitem doc pn = Inr page"
    and "get_images page = Inr image_list"
    and "get_image_rects page xref = Inr (R1 # R2 # others)"
    and "R1 \<noteq> R2"
  shows "\<exists>block.
           block = filter (\<lambda>r. pageNumber r = int pn + 1) images \<and>
           length block = length image_list \<and>
           (\<forall>k<length image_list. img_0 (image_list ! k) = xref \<longrightarrow>
              (\<exists>base_image.
                 extract_image doc xref = Inr base_image \<and>
                 imageIndex (block ! k) = int k \<and>
                 format (block ! k) = base_image_ext base_image \<and>
                 base64 (block ! k) = b64encode (base_image_image base_image) \<and>
                 bbox (block ! k) =
                   BBox (PyFloat (rect_x0 R1)) (PyFloat (rect_y0 R1))
                        (PyFloat (rect_width R1)) (PyFloat (rect_height R1)) \<and>
                 bbox (block ! k) \<noteq>
                   BBox (PyFloat (rect_x0 R2)) (PyFloat (rect_y0 R2))
                        (PyFloat (rect_width R2)) (PyFloat (rect_height R2)))) \<and>
           (\<forall>i<length image_list. \<forall>j<length image_list.
              img_0 (image_list ! i) = xref \<and> img_0 (image_list ! j) = xref \<longrightarrow>
                format (block ! i) = format (block ! j) \<and>
                base64 (block ! i) = base64 (block ! j) \<and>
                bbox (block ! i) = bbox (block ! j))"
proof -
  define block where "block = filter (\<lambda>r. pageNumber r = int pn + 1) images"
  from page_block [OF assms(1-3)] have pr: "page_rel doc pn block"
    by (simp add: block_def)
  note n = page_rel_nth [OF pr assms(4,5)]
  from n have len: "length block = length image_list" by simp
  have each: "\<exists>base_image.
                 extract_image doc xref = Inr base_image \<and>
                 imageIndex (block ! k) = int k \<and>
                 format (block ! k) = base_image_ext base_image \<and>
                 base64 (block ! k) = b64encode (base_image_image base_image) \<and>
                 bbox (block ! k) =
                   BBox (PyFloat (rect_x0 R1)) (PyFloat (rect_y0 R1))
                        (PyFloat (rect_width R1)) (PyFloat (rect_height R1)) \<and>
                 bbox (block ! k) \<noteq>
                   BBox (PyFloat (rect_x0 R2)) (PyFloat (rect_y0 R2))
                        (PyFloat (rect_width R2)) (PyFloat (rect_height R2))"
    if k: "k < length image_list" and x: "img_0 (image_list ! k) = xref" for k
  proof -
    from n k have "image_rel doc page pn (k, image_list ! k) (block ! k)" by simp
    from image_rel_fields [OF this] obtain b rects where
      f: "extract_image doc (img_0 (image_list ! k)) = Inr b"
         "get_image_rects page (img_0 (image_list ! k)) = Inr rects"
         "imageIndex (block ! k) = int k"
         "format (block ! k) = base_image_ext b"
         "base64 (block ! k) = b64encode (base_image_image b)"
         "bbox (block ! k) = (case rects of
                        rect # _ \<Rightarrow>
                          BBox (PyFloat (rect_x0 rect)) (PyFloat (rect_y0 rect))
                               (PyFloat (rect_width rect)) (PyFloat (rect_height rect))
                      | [] \<Rightarrow> BBox (PyInt 0) (PyInt 0) (PyInt 0) (PyInt 0))"
      by blast
    from f(2) x assms(6) have "rects = R1 # R2 # others" by simp
    with f(6) have bb: "bbox (block ! k) =
                   BBox (PyFloat (rect_x0 R1)) (PyFloat (rect_y0 R1))
                        (PyFloat (rect_width R1)) (PyFloat (rect_height R1))" by simp
    with bbox_of_rect_inj [OF assms(7)] have nb: "bbox (block ! k) \<noteq>
                   BBox (PyFloat (rect_x0 R2)) (PyFloat (rect_y0 R2))
                        (PyFloat (rect_width R2)) (PyFloat (rect_height R2))" by simp
    from f(1) x have "extract_image doc xref = Inr b" by simp
    with f(3,4,5) bb nb show ?thesis by blast
  qed
  have same: "format (block ! i) = format (block ! j) \<and>
                base64 (block ! i) = base64 (block ! j) \<and>
                bbox (block ! i) = bbox (block ! j)"
    if "i < length image_list" "j < length image_list"
       "img_0 (image_list ! i) = xref" "img_0 (image_list ! j) = xref" for i j
  proof -
    from each [OF that(1,3)] obtain bi where
      i: "extract_image doc xref = Inr bi" "format (block ! i) = base_image_ext bi"
         "base64 (block ! i) = b64encode (base_image_image bi)"
         "bbox (block ! i) =
                   BBox (PyFloat (rect_x0 R1)) (PyFloat (rect_y0 R1))
                        (PyFloat (rect_width R1)) (PyFloat (rect_height R1))"
      by blast
    from each [OF that(2,4)] obtain bj where
      j: "extract_image doc xref = Inr bj" "format (block ! j) = base_image_ext bj"
         "base64 (block ! j) = b64encode (base_image_image bj)"
         "bbox (block ! j) =
                   BBox (PyFloat (rect_x0 R1)) (PyFloat (rect_y0 R1))
                        (PyFloat (rect_width R1)) (PyFloat (rect_height R1))"
      by blast
    from i(1) j(1) have "bj = bi" by simp
    with i j show ?thesis by simp
  qed
  from len each same show ?thesis
    unfolding block_def by blast
qed

theorem same_resource_records_witness:
  "sample_fitz ''two.pdf'' = Inr two_doc \<and>
   fst (extract_images_from_pdf sample_fitz ''two.pdf'') = Inr two_records \<and>
   0 < doc_len two_doc \<and>
   doc_getitem two_doc 0 = Inr two_page0 \<and>
   get_images two_page0 = Inr [Img 7 ''Im0'', Img 7 ''Im1'', Img 9 ''Im2''] \<and>
   get_image_rects two_page0 7 = Inr [Rect 10 20 100 50, Rect 200 20 100 50] \<and>
   Rect 10 20 100 50 \<noteq> Rect 200 20 100 50 \<and>
   length (filter (\<lambda>r. pageNumber r = int 0 + 1) two_records) = 3 \<and>
   imageIndex (filter (\<lambda>r. pageNumber r = int 0 + 1) two_records ! 0) = 0 \<and>
   imageIndex (filter (\<lambda>r. pageNumber r = int 0 + 1) two_records ! 1) = 1 \<and>
   bbox (filter (\<lambda>r. pageNumber r = int 0 + 1) two_records ! 0) =
     BBox (PyFloat 10) (PyFloat 20) (PyFloat 100) (PyFloat 50) \<and>
   bbox (filter (\<lambda>r. pageNumber r = int 0 + 1) two_records ! 1) =
     BBox (PyFloat 10) (PyFloat 20) (PyFloat 100) (PyFloat 50) \<and>
   bbox (filter (\<lambda>r. pageNumber r = int 0 + 1) two_records ! 1) \<noteq>
     BBox (PyFloat 200) (PyFloat 20) (PyFloat 100) (PyFloat 50) \<and>
   format (filter (\<lambda>r. pageNumber r = int 0 + 1) two_records ! 0) =
     format (filter (\<lambda>r. pageNumber r = int 0 + 1) two_records ! 1) \<and>
   base64 (filter (\<lambda>r. pageNumber r = int 0 + 1) two_records ! 0) =
     base64 (filter (\<lambda>r. pageNumber r = int 0 + 1) two_records ! 1)"
proof -
  define L where "L = [Img 7 ''Im0'', Img 7 ''Im1'', Img 9 ''Im2'']"
  define B where "B = filter (\<lambda>r. pageNumber r = int 0 + 1) two_records"
  have h1: "sample_fitz ''two.pdf'' = Inr two_doc"
    by (simp add: sample_fitz_def)
  have h2: "fst (extract_images_from_pdf sample_fitz ''two.pdf'') = Inr two_records"
    by (simp add: extract_two)
  have h3: "0 < doc_len two_doc"
    by (simp add: two_doc_def)
  have h4: "doc_getitem two_doc 0 = Inr two_page0"
    by (simp add: two_doc_def)
  have h5: "get_images two_page0 = Inr L"
    by (simp add: two_page0_def L_def)
  have h6: "get_image_rects two_page0 7 = Inr [Rect 10 20 100 50, Rect 200 20 100 50]"
    by (simp add: two_page0_def)
  have h7: "Rect 10 20 100 50 \<noteq> Rect 200 20 100 50"
    by simp
  from same_resource_records [OF h1 h2 h3 h4 h5 h6 h7]
  have len: "length B = length L"
    and each: "\<forall>k<length L. img_0 (L ! k) = 7 \<longrightarrow>
              (\<exists>base_image.
                 extract_image two_doc 7 = Inr base_image \<and>
                 imageIndex (B ! k) = int k \<and>
                 format (B ! k) = base_image_ext base_image \<and>
                 base64 (B ! k) = b64encode (base_image_image base_image) \<and>
                 bbox (B ! k) =
                   BBox (PyFloat (rect_x0 (Rect 10 20 100 50)))
                        (PyFloat (rect_y0 (Rect 10 20 100 50)))
                        (PyFloat (rect_width (Rect 10 20 100 50)))
                        (PyFloat (rect_height (Rect 10 20 100 50))) \<and>
                 bbox (B ! k) \<noteq>
                   BBox (PyFloat (rect_x0 (Rect 200 20 100 50)))
                        (PyFloat (rect_y0 (Rect 200 20 100 50)))
                        (PyFloat (rect_width (Rect 200 20 100 50)))
                        (PyFloat (rect_height (Rect 200 20 100 50))))"
    and same: "\<forall>i<length L. \<forall>j<length L.
              img_0 (L ! i) = 7 \<and> img_0 (L ! j) = 7 \<longrightarrow>
                format (B ! i) = format (B ! j) \<and>
                base64 (B ! i) = base64 (B ! j) \<and>
                bbox (B ! i) = bbox (B ! j)"
    unfolding B_def by blast+
  have k0: "0 < length L" "img_0 (L ! 0) = 7" by (simp_all add: L_def)
  have k1: "1 < length L" "img_0 (L ! 1) = 7" by (simp_all add: L_def)
  from len have r0: "length B = 3" by (simp add: L_def)
  from each k0 have r1: "imageIndex (B ! 0) = 0"
    "bbox (B ! 0) = BBox (PyFloat 10) (PyFloat 20) (PyFloat 100) (PyFloat 50)"
    by auto
  from each k1 have r2: "imageIndex (B ! 1) = 1"
    "bbox (B ! 1) = BBox (PyFloat 10) (PyFloat 20) (PyFloat 100) (PyFloat 50)"
    "bbox (B ! 1) \<noteq> BBox (PyFloat 200) (PyFloat 20) (PyFloat 100) (PyFloat 50)"
    by auto
  from same k0 k1 have r3: "format (B ! 0) = format (B ! 1)" "base64 (B ! 0) = base64 (B ! 1)"
    by blast+
  from h1 h2 h3 h4 h5 h6 h7 r0 r1 r2 r3 show ?thesis
    unfolding B_def L_def by blast
qed

text \<open>
  C5. With exactly one argument (\<open>len(sys.argv) == 2\<close>): when no library call of the
  traversal raises, the routine returns, the success envelope is the one line of
  standard output, standard error is empty and the exit code is 0; when some call
  raises, the routine raises, the failure envelope is the one line of standard
  error, standard output is empty and the exit code is 1. The two cases exclude
  each other and each envelope is on its own stream only.
\<close>

theorem main_one_argument_outcomes:
  assumes "length argv = 2"
  shows "(library_errors fitz_open (argv ! 1) = [] \<longrightarrow>
            exit_code (main fitz_open argv) = 0 \<and> stderr (main fitz_open argv) = [] \<and>
            (\<exists>images. fst (extract_images_from_pdf fitz_open (argv ! 1)) = Inr images \<and>
               stdout (main fitz_open argv) =
                 [Json (JObj [(''success'', JBool True),
                              (''totalImages'', JInt (int (length images))),
                              (''images'', JArr (map dumps_record images))])])) \<and>
         (library_errors fitz_open (argv ! 1) \<noteq> [] \<longrightarrow>
            exit_code (main fitz_open argv) = 1 \<and> stdout (main fitz_open argv) = [] \<and>
            (\<exists>e. fst (extract_images_from_pdf fitz_open (argv ! 1)) = Inl e \<and>
               stderr (main fitz_open argv) =
                 [Json (JObj [(''success'', JBool False), (''error'', JStr (exc_str e))])]))"
proof (intro conjI impI)
  assume "library_errors fitz_open (argv ! 1) = []"
  then obtain images where i: "fst (extract_images_from_pdf fitz_open (argv ! 1)) = Inr images"
    using extract_returns by blast
  note m = main_returns [OF assms i]
  from m show "exit_code (main fitz_open argv) = 0" by simp
  from m show "stderr (main fitz_open argv) = []" by simp
  from m i show "\<exists>images. fst (extract_images_from_pdf fitz_open (argv ! 1)) = Inr images \<and>
               stdout (main fitz_open argv) =
                 [Json (JObj [(''success'', JBool True),
                              (''totalImages'', JInt (int (length images))),
                              (''images'', JArr (map dumps_record images))])]" by simp
next
  assume "library_errors fitz_open (argv ! 1) \<noteq> []"
  then obtain e es where "library_errors fitz_open (argv ! 1) = e # es"
    by (cases "library_errors fitz_open (argv ! 1)") auto
  from extract_raises [OF this] obtain w where
    w: "fst (extract_images_from_pdf fitz_open (argv ! 1)) = Inl w" by blast
  note m = main_raises [OF assms w]
  from m show "exit_code (main fitz_open argv) = 1" by simp
  from m show "stdout (main fitz_open argv) = []" by simp
  from m w show "\<exists>e. fst (extract_images_from_pdf fitz_open (argv ! 1)) = Inl e \<and>
               stderr (main fitz_open argv) =
                 [Json (JObj [(''success'', JBool False), (''error'', JStr (exc_str e))])]" by simp
qed

theorem main_one_argument_outcomes_witness:
  "length [''extract_images.py'', ''blank.pdf''] = 2 \<and>
   library_errors sample_fitz ([''extract_images.py'', ''blank.pdf''] ! 1) = [] \<and>
   exit_code (main sample_fitz [''extract_images.py'', ''blank.pdf'']) = 0 \<and>
   stderr (main sample_fitz [''extract_images.py'', ''blank.pdf'']) = [] \<and>
   length [''extract_images.py'', ''broken.pdf''] = 2 \<and>
   library_errors sample_fitz ([''extract_images.py'', ''broken.pdf''] ! 1) \<noteq> [] \<and>
   exit_code (main sample_fitz [''extract_images.py'', ''broken.pdf'']) = 1 \<and>
   stdout (main sample_fitz [''extract_images.py'', ''broken.pdf'']) = []"
proof -
  have l1: "length [''extract_images.py'', ''blank.pdf''] = 2" by simp
  have e1: "library_errors sample_fitz ([''extract_images.py'', ''blank.pdf''] ! 1) = []"
    by (simp add: library_errors_blank)
  have l2: "length [''extract_images.py'', ''broken.pdf''] = 2" by simp
  have e2: "library_errors sample_fitz ([''extract_images.py'', ''broken.pdf''] ! 1) \<noteq> []"
    by (simp add: library_errors_broken)
  from main_one_argument_outcomes [OF l1, of sample_fitz] e1
  have r1: "exit_code (main sample_fitz [''extract_images.py'', ''blank.pdf'']) = 0 \<and>
            stderr (main sample_fitz [''extract_images.py'', ''blank.pdf'']) = []"
    by blast
  from main_one_argument_outcomes [OF l2, of sample_fitz] e2
  have r2: "exit_code (main sample_fitz [''extract_images.py'', ''broken.pdf'']) = 1 \<and>
            stdout (main sample_fitz [''extract_images.py'', ''broken.pdf'']) = []"
    by blast
  from l1 e1 r1 l2 e2 r2 show ?thesis by blast
qed



text \<open>
  C7. With exactly one argument, when the routine returns, \<open>totalImages\<close> of the
  success envelope is the length of its \<open>images\<close> array, which has one item per
  record returned. When the document opens and closes and every page loads and
  enumerates no image, the output is the success envelope with \<open>totalImages\<close> 0 and
  an empty \<open>images\<close> array, and the exit code is 0.
\<close>

theorem main_total_images:
  assumes "length argv = 2"
  shows "(fst (extract_images_from_pdf fitz_open (argv ! 1)) = Inr images \<longrightarrow>
            (\<exists>items. length items = length images \<and>
               stdout (main fitz_open argv) =
                 [Json (JObj [(''success'', JBool True),
                              (''totalImages'', JInt (int (length items))),
                              (''images'', JArr items)])])) \<and>
         (fitz_open (argv ! 1) = Inr doc \<and> doc_close doc = Inr () \<and>
          (\<forall>pn<doc_len doc. \<exists>page. doc_getitem doc pn = Inr page \<and> get_images page = Inr []) \<longrightarrow>
            stdout (main fitz_open argv) =
              [Json (JObj [(''success'', JBool True), (''totalImages'', JInt 0),
                           (''images'', JArr [])])] \<and>
            stderr (main fitz_open argv) = [] \<and>
            exit_code (main fitz_open argv) = 0)"
proof (rule conjI; rule impI)
  assume i: "fst (extract_images_from_pdf fitz_open (argv ! 1)) = Inr images"
  have "length (map dumps_record images) = length images" by simp
  moreover from main_returns [OF assms i]
  have "stdout (main fitz_open argv) =
                 [Json (JObj [(''success'', JBool True),
                              (''totalImages'', JInt (int (length (map dumps_record images)))),
                              (''images'', JArr (map dumps_record images))])]" by simp
  ultimately show "\<exists>items. length items = length images \<and>
               stdout (main fitz_open argv) =
                 [Json (JObj [(''success'', JBool True),
                              (''totalImages'', JInt (int (length items))),
                              (''images'', JArr items)])]" by blast
next
  assume a: "fitz_open (argv ! 1) = Inr doc \<and> doc_close doc = Inr () \<and>
          (\<forall>pn<doc_len doc. \<exists>page. doc_getitem doc pn = Inr page \<and> get_images page = Inr [])"
  then have "page_loop doc [0..<doc_len doc] [] = Inr []"
    by (intro page_loop_no_images) simp
  with a have "fst (extract_images_from_pdf fitz_open (argv ! 1)) = Inr []"
    by (simp add: extract_images_from_pdf_def try_body_def)
  from main_returns [OF assms this]
  show "stdout (main fitz_open argv) =
              [Json (JObj [(''success'', JBool True), (''totalImages'', JInt 0),
                           (''images'', JArr [])])] \<and>
            stderr (main fitz_open argv) = [] \<and>
            exit_code (main fitz_open argv) = 0" by simp
qed

theorem main_total_images_witness:
  "length [''extract_images.py'', ''two.pdf''] = 2 \<and>
   fst (extract_images_from_pdf sample_fitz ([''extract_images.py'', ''two.pdf''] ! 1)) =
     Inr two_records \<and>
   (\<exists>items. length items = length two_records \<and>
      stdout (main sample_fitz [''extract_images.py'', ''two.pdf'']) =
        [Json (JObj [(''success'', JBool True),
                     (''totalImages'', JInt (int (length items))),
                     (''images'', JArr items)])]) \<and>
   length [''extract_images.py'', ''blank.pdf''] = 2 \<and>
   sample_fitz ([''extract_images.py'', ''blank.pdf''] ! 1) = Inr blank_doc \<and>
   doc_close blank_doc = Inr () \<and>
   stdout (main sample_fitz [''extract_images.py'', ''blank.pdf'']) =
     [Json (JObj [(''success'', JBool True), (''totalImages'', JInt 0), (''images'', JArr [])])] \<and>
   exit_code (main sample_fitz [''extract_images.py'', ''blank.pdf'']) = 0"
proof -
  have l1: "length [''extract_images.py'', ''two.pdf''] = 2" by simp
  have e1: "fst (extract_images_from_pdf sample_fitz ([''extract_images.py'', ''two.pdf''] ! 1)) =
              Inr two_records"
    by (simp add: extract_two)
  from main_total_images [OF l1, where fitz_open = sample_fitz and images = two_records] e1
  have r1: "\<exists>items. length items = length two_records \<and>
      stdout (main sample_fitz [''extract_images.py'', ''two.pdf'']) =
        [Json (JObj [(''success'', JBool True),
                     (''totalImages'', JInt (int (length items))),
                     (''images'', JArr items)])]"
    by blast
  have l2: "length [''extract_images.py'', ''blank.pdf''] = 2" by simp
  have o2: "sample_fitz ([''extract_images.py'', ''blank.pdf''] ! 1) = Inr blank_doc"
    by (simp add: sample_fitz_def)
  have c2: "doc_close blank_doc = Inr ()"
    by (simp add: blank_doc_def)
  have p2: "\<forall>pn<doc_len blank_doc. \<exists>page.
              doc_getitem blank_doc pn = Inr page \<and> get_images page = Inr []"
    by (simp add: blank_doc_def)
  from main_total_images [OF l2, where fitz_open = sample_fitz and doc = blank_doc] o2 c2 p2
  have r2: "stdout (main sample_fitz [''extract_images.py'', ''blank.pdf'']) =
     [Json (JObj [(''success'', JBool True), (''totalImages'', JInt 0), (''images'', JArr [])])] \<and>
   exit_code (main sample_fitz [''extract_images.py'', ''blank.pdf'']) = 0"
    by blast
  from l1 e1 r1 l2 o2 c2 r2 show ?thesis by blast
qed

text \<open>
  C8. With an argument count other than one (\<open>len(sys.argv) != 2\<close>) the process
  prints the usage line as plain text to standard error, exits with code 1, prints
  no JSON on either stream, and makes no library call.
\<close>

theorem main_wrong_argument_count:
  assumes "length argv \<noteq> 2"
  shows "stderr (main fitz_open argv) = [Text ''Usage: python extract_images.py <pdf_path>''] \<and>
         stdout (main fitz_open argv) = [] \<and>
         exit_code (main fitz_open argv) = 1 \<and>
         \<not> list_ex is_json (stdout (main fitz_open argv) @ stderr (main fitz_open argv)) \<and>
         lib_calls (main fitz_open argv) = []"
  using assms by (simp add: main_def)

theorem main_wrong_argument_count_witness:
  "length [''extract_images.py''] \<noteq> 2 \<and>
   length [''extract_images.py'', ''two.pdf'', ''blank.pdf''] \<noteq> 2 \<and>
   exit_code (main sample_fitz [''extract_images.py'']) = 1 \<and>
   stderr (main sample_fitz [''extract_images.py'', ''two.pdf'', ''blank.pdf'']) =
     [Text ''Usage: python extract_images.py <pdf_path>''] \<and>
   lib_calls (main sample_fitz [''extract_images.py'', ''two.pdf'', ''blank.pdf'']) = []"
proof -
  have h0: "length [''extract_images.py''] \<noteq> 2" by simp
  have h3: "length [''extract_images.py'', ''two.pdf'', ''blank.pdf''] \<noteq> 2" by simp
  from main_wrong_argument_count [OF h0, of sample_fitz]
    main_wrong_argument_count [OF h3, of sample_fitz] h0 h3
  show ?thesis by simp
qed

text \<open>
  C9. Every record of a successful extraction comes from one entry of one page's
  enumeration, and its \<open>base64\<close> field is \<open>b64encode\<close> of the bytes the decoder
  returned for that entry's resource: text over the standard alphabet and the
  padding character, with no line feed and neither of the two URL-safe characters,
  which \<open>b64decode\<close> takes back to exactly those bytes.
\<close>

theorem record_base64:
  assumes "fst (extract_images_from_pdf fitz_open pdf_path) = Inr images"
    and "r \<in> set images"
  shows "\<exists>doc page image_list base_image.
           fitz_open pdf_path = Inr doc \<and>
           doc_getitem doc (nat (pageNumber r - 1)) = Inr page \<and>
           get_images page = Inr image_list \<and>
           nat (imageIndex r) < length image_list \<and>
           extract_image doc (img_0 (image_list ! nat (imageIndex r))) = Inr base_image \<and>
           base64 r = b64encode (base_image_image base_image) \<and>
           b64decode (base64 r) = Some (base_image_image base_image) \<and>
           set (base64 r) \<subseteq> set b64_alphabet \<union> {CHR ''=''} \<and>
           CHR 0x0A \<notin> set (base64 r) \<and> CHR ''-'' \<notin> set (base64 r) \<and>
           CHR ''_'' \<notin> set (base64 r)"
proof -
  from record_origin [OF assms] obtain doc pn page image_list k where
    o: "fitz_open pdf_path = Inr doc" "pn < doc_len doc"
       "doc_getitem doc pn = Inr page" "get_images page = Inr image_list"
       "k < length image_list" "image_rel doc page pn (k, image_list ! k) r"
    by blast
  from image_rel_fields [OF o(6)] obtain base_image where
    f: "extract_image doc (img_0 (image_list ! k)) = Inr base_image"
       "pageNumber r = int pn + 1" "imageIndex r = int k"
       "base64 r = b64encode (base_image_image base_image)"
    by blast
  from f(2) have pn: "nat (pageNumber r - 1) = pn" by simp
  from f(3) have k: "nat (imageIndex r) = k" by simp
  from f(4) have d: "b64decode (base64 r) = Some (base_image_image base_image)"
    by (simp add: b64decode_b64encode)
  have s: "set (base64 r) \<subseteq> set b64_alphabet \<union> {CHR ''=''}"
    unfolding f(4) by (rule b64encode_alphabet)
  from s newline_not_b64 have n: "CHR 0x0A \<notin> set (base64 r)" by blast
  from s url_safe_not_b64 have u: "CHR ''-'' \<notin> set (base64 r)" "CHR ''_'' \<notin> set (base64 r)"
    by blast+
  from o(1,3,4,5) f(1,4) d s n u show ?thesis
    unfolding pn [symmetric] k [symmetric] by blast
qed

theorem record_base64_witness:
  "fst (extract_images_from_pdf sample_fitz ''two.pdf'') = Inr two_records \<and>
   two_records ! 2 \<in> set two_records \<and>
   (\<exists>doc page image_list base_image.
      sample_fitz ''two.pdf'' = Inr doc \<and>
      doc_getitem doc (nat (pageNumber (two_records ! 2) - 1)) = Inr page \<and>
      get_images page = Inr image_list \<and>
      nat (imageIndex (two_records ! 2)) < length image_list \<and>
      extract_image doc (img_0 (image_list ! nat (imageIndex (two_records ! 2)))) =
        Inr base_image \<and>
      base64 (two_records ! 2) = b64encode (base_image_image base_image) \<and>
      b64decode (base64 (two_records ! 2)) = Some (base_image_image base_image) \<and>
      set (base64 (two_records ! 2)) \<subseteq> set b64_alphabet \<union> {CHR ''=''} \<and>
      CHR 0x0A \<notin> set (base64 (two_records ! 2)) \<and>
      CHR ''-'' \<notin> set (base64 (two_records ! 2)) \<and>
      CHR ''_'' \<notin> set (base64 (two_records ! 2)))"
proof -
  have h1: "fst (extract_images_from_pdf sample_fitz ''two.pdf'') = Inr two_records"
    by (simp add: extract_two)
  have h2: "two_records ! 2 \<in> set two_records"
    by (simp add: two_records_def)
  show ?thesis
    by (rule conjI [OF h1 conjI [OF h2 record_base64 [OF h1 h2]]])
qed

text \<open>
  C10. When a library call of the traversal raises, the \<open>error\<close> string of the
  failure envelope is the prefix \<open>Failed to extract images: \<close> followed by the text
  of the exception raised, the prefix being put there once.
\<close>

theorem main_error_text:
  assumes "length argv = 2"
    and "library_errors fitz_open (argv ! 1) = e # es"
  shows "stderr (main fitz_open argv) =
           [Json (JObj [(''success'', JBool False),
                        (''error'', JStr (''Failed to extract images: '' @ exc_str e))])]"
  using main_raises [OF assms(1) extract_raises [OF assms(2)]] by simp

theorem main_error_text_witness:
  "length [''extract_images.py'', ''broken.pdf''] = 2 \<and>
   library_errors sample_fitz ([''extract_images.py'', ''broken.pdf''] ! 1) =
     [PyExc ''ValueError'' ''not an image''] \<and>
   stderr (main sample_fitz [''extract_images.py'', ''broken.pdf'']) =
     [Json (JObj [(''success'', JBool False),
                  (''error'', JStr ''Failed to extract images: not an image'')])]"
proof -
  have h1: "length [''extract_images.py'', ''broken.pdf''] = 2" by simp
  have h2: "library_errors sample_fitz ([''extract_images.py'', ''broken.pdf''] ! 1) =
              [PyExc ''ValueError'' ''not an image'']"
    by (simp add: library_errors_broken)
  from main_error_text [OF h1 h2] h1 h2 show ?thesis by simp
qed

end
